theory Spec2Isabelle
  imports Main
begin

section \<open>Python values\<close>

text \<open>
  The script \<^verbatim>\<open>spanish_translator.py\<close> handles three kinds of values: \<^verbatim>\<open>str\<close>, the
  missing value of a pandas cell (\<^verbatim>\<open>NaN\<close> as \<^verbatim>\<open>read_csv\<close> produces it, \<^verbatim>\<open>pd.NA\<close> as line 28
  assigns it), and \<^verbatim>\<open>None\<close>, which stands here for every non-\<^verbatim>\<open>str\<close> object a translator
  may hand back. Strings are character lists; \<^verbatim>\<open>len\<close> is \<open>length\<close>.
\<close>

datatype pyval = PyStr string | PyNA | PyNone

text \<open>\<^verbatim>\<open>pd.isna(x)\<close>: true for \<^verbatim>\<open>NaN\<close>, \<^verbatim>\<open>pd.NA\<close> and \<^verbatim>\<open>None\<close>, false for every string.\<close>

fun isna :: "pyval \<Rightarrow> bool" where
  "isna (PyStr s) = False"
| "isna PyNA = True"
| "isna PyNone = True"

text \<open>\<^verbatim>\<open>str(x)\<close>. A missing summary cell is the float \<^verbatim>\<open>NaN\<close>, whose \<^verbatim>\<open>str\<close> is \<^verbatim>\<open>nan\<close>.\<close>

fun py_str :: "pyval \<Rightarrow> string" where
  "py_str (PyStr s) = s"
| "py_str PyNA = ''nan''"
| "py_str PyNone = ''None''"

text \<open>
  An exception object: its class name and its \<^verbatim>\<open>str(e)\<close>. Every exception of the model is
  an instance of \<^verbatim>\<open>Exception\<close>; \<^verbatim>\<open>KeyboardInterrupt\<close> and \<^verbatim>\<open>SystemExit\<close> end the process and
  are not modelled.
\<close>

datatype py_exc = PyExc (exc_class: string) (exc_str: string)

text \<open>\<^verbatim>\<open>s.startswith(p)\<close>\<close>

definition startswith :: "string \<Rightarrow> string \<Rightarrow> bool" where
  "startswith s p = (take (length p) s = p)"

section \<open>\<^verbatim>\<open>truncate_text\<close> (lines 62--65)\<close>

text \<open>\<^verbatim>\<open>text[:n]\<close>: a negative \<open>n\<close> counts from the end.\<close>

definition slice_to :: "string \<Rightarrow> int \<Rightarrow> string" where
  "slice_to text n =
     (if 0 \<le> n then take (nat n) text else take (length text - nat (- n)) text)"

text \<open>
  \<^verbatim>\<open>text.rsplit(' ', 1)\<close>: one split at the last space character; the text alone when it
  holds no space.
\<close>

definition rsplit_space :: "string \<Rightarrow> string list" where
  "rsplit_space text =
     (if CHR '' '' \<in> set text
      then [rev (tl (dropWhile (\<lambda>c. c \<noteq> CHR '' '') (rev text))),
            rev (takeWhile (\<lambda>c. c \<noteq> CHR '' '') (rev text))]
      else [text])"

definition truncate_text :: "string \<Rightarrow> int \<Rightarrow> string" where
  "truncate_text text max_length =
     (if int (length text) \<le> max_length then text
      else hd (rsplit_space (slice_to text max_length)) @ ''...'')"

section \<open>The world: translators, sleeps, the log and the files\<close>

text \<open>
  The two translator objects of lines 32--33. What a translator answers is outside the
  script: the environment gives, for the \<open>k\<close>-th call (from 0) of a translator on a text,
  either the exception it raises or the value it returns. Both objects are taken as given:
  line 33 builds the second one from the name \<^verbatim>\<open>MyMemoryTranslator\<close>, which line 2 does not
  import.
\<close>

datatype translator = GoogleTranslator | MyMemoryTranslator

type_synonym env = "translator \<Rightarrow> nat \<Rightarrow> string \<Rightarrow> py_exc + pyval"

datatype log_entry =
    AttemptFailed nat py_exc
  | FallbackWarning nat
  | NetworkError nat py_exc
  | UnexpectedError nat py_exc
  | CheckpointSaved nat
  | Resuming
  | StartingNew
  | CreatedColumn
  | JobCompleted
  | Completed nat nat nat

record row =
  summary :: pyval
  translated_summary :: pyval

type_synonym dataset = "row list"

text \<open>
  A CSV file of the job: either the \<^verbatim>\<open>summary\<close> column alone, or \<^verbatim>\<open>summary\<close> and
  \<^verbatim>\<open>translated_summary\<close>. Its fields are text.
\<close>

datatype csv = Csv1 "string list" | Csv2 "(string \<times> string) list"

datatype path = CheckpointFile | OutputFile

record world =
  calls :: "(translator \<times> string) list"
  sleeps :: "nat list"
  log :: "log_entry list"
  written :: "(path \<times> csv) list"

definition world0 :: world where
  "world0 = \<lparr>calls = [], sleeps = [], log = [], written = []\<rparr>"

definition calls_of :: "translator \<Rightarrow> world \<Rightarrow> nat" where
  "calls_of tr w = length (filter (\<lambda>c. fst c = tr) (calls w))"

text \<open>\<^verbatim>\<open>translator.translate(text)\<close>\<close>

definition translate :: "env \<Rightarrow> translator \<Rightarrow> string \<Rightarrow> world \<Rightarrow> (py_exc + pyval) \<times> world" where
  "translate env tr text w = (env tr (calls_of tr w) text, w\<lparr>calls := calls w @ [(tr, text)]\<rparr>)"

definition logging :: "log_entry \<Rightarrow> world \<Rightarrow> world" where
  "logging entry w = w\<lparr>log := log w @ [entry]\<rparr>"

definition time_sleep :: "nat \<Rightarrow> world \<Rightarrow> world" where
  "time_sleep secs w = w\<lparr>sleeps := sleeps w @ [secs]\<rparr>"

section \<open>\<^verbatim>\<open>translate_with_backoff\<close> (lines 35--44)\<close>

text \<open>\<^verbatim>\<open>range(n)\<close>: empty for \<open>n \<le> 0\<close>.\<close>

definition py_range :: "int \<Rightarrow> nat list" where
  "py_range n = [0..<nat n]"

text \<open>
  The \<^verbatim>\<open>for\<close> loop over the attempts. \<open>Some v\<close>: a \<^verbatim>\<open>return v\<close> inside the loop was
  executed; \<open>None\<close>: the range ran out and control falls through to line 44.
\<close>

fun backoff_loop ::
  "env \<Rightarrow> string \<Rightarrow> translator \<Rightarrow> int \<Rightarrow> nat list \<Rightarrow> world \<Rightarrow> pyval option \<times> world" where
  "backoff_loop env text tr max_retries [] w = (None, w)"
| "backoff_loop env text tr max_retries (attempt # rest) w =
     (case translate env tr text w of
        (Inr v, w1) \<Rightarrow> (Some v, w1)
      | (Inl e, w1) \<Rightarrow>
          (let w2 = logging (AttemptFailed (attempt + 1) e) w1 in
           if int attempt = max_retries - 1
           then (Some (PyStr (''Translation failed: '' @ exc_str e)), w2)
           else backoff_loop env text tr max_retries rest (time_sleep (2 ^ attempt) w2)))"

definition translate_with_backoff ::
  "env \<Rightarrow> string \<Rightarrow> translator \<Rightarrow> int \<Rightarrow> world \<Rightarrow> pyval \<times> world" where
  "translate_with_backoff env text tr max_retries w =
     (case backoff_loop env text tr max_retries (py_range max_retries) w of
        (Some v, w1) \<Rightarrow> (v, w1)
      | (None, w1) \<Rightarrow> (PyStr ''Translation failed after maximum retries'', w1))"

section \<open>\<^verbatim>\<open>translate_text\<close> (lines 46--60)\<close>

text \<open>
  The names bound in the module when \<^verbatim>\<open>translate_text\<close> runs: those of the imports of
  lines 1--7, the module's assignments up to the call of line 74 and its three functions. The
  script never imports \<^verbatim>\<open>requests\<close>.
\<close>

definition module_globals :: "string list" where
  "module_globals =
     [''pd'', ''GoogleTranslator'', ''time'', ''tqdm'', ''logging'', ''os'',
      ''ThreadPoolExecutor'', ''as_completed'', ''file_path'', ''output_file_path'',
      ''checkpoint_file'', ''df'', ''google_translator'', ''mymemory_translator'',
      ''translate_with_backoff'', ''translate_text'', ''truncate_text'', ''pbar'',
      ''index'', ''row'', ''original_text'']"

text \<open>
  The \<^verbatim>\<open>except\<close> clauses of lines 55--60, tried in order on an exception \<open>e\<close> of the
  \<^verbatim>\<open>try\<close> body. Matching the first clause evaluates the expression
  \<^verbatim>\<open>requests.exceptions.RequestException\<close>; a name that is not bound raises \<^verbatim>\<open>NameError\<close>
  there, and that exception leaves the function.
\<close>

definition except_clauses :: "py_exc \<Rightarrow> nat \<Rightarrow> world \<Rightarrow> (py_exc + pyval) \<times> world" where
  "except_clauses e index w =
     (if ''requests'' \<notin> set module_globals then (Inl (PyExc ''NameError'' ''requests''), w)
      else if exc_class e = ''RequestException''
      then (Inr (PyStr (''Network error: '' @ exc_str e)), logging (NetworkError index e) w)
      else (Inr (PyStr (''Unexpected error: '' @ exc_str e)), logging (UnexpectedError index e) w))"

text \<open>
  \<^verbatim>\<open>result.startswith\<close> on a result that is not a string raises \<^verbatim>\<open>AttributeError\<close>
  inside the \<^verbatim>\<open>try\<close>. The result of the second translator is returned as it is.
\<close>

fun translate_text :: "env \<Rightarrow> pyval \<Rightarrow> nat \<Rightarrow> world \<Rightarrow> (py_exc + pyval) \<times> world" where
  "translate_text env PyNA index w = (Inr (PyStr ''''), w)"
| "translate_text env PyNone index w = (Inr (PyStr ''''), w)"
| "translate_text env (PyStr text) index w =
     (if text = '''' then (Inr (PyStr ''''), w)
      else
        (case translate_with_backoff env text GoogleTranslator 5 w of
           (PyStr result, w1) \<Rightarrow>
             (if startswith result ''Translation failed''
              then
                (let w2 = logging (FallbackWarning index) w1 in
                 case translate_with_backoff env text MyMemoryTranslator 5 w2 of
                   (result2, w3) \<Rightarrow> (Inr result2, w3))
              else (Inr (PyStr result), w1))
         | (_, w1) \<Rightarrow> except_clauses (PyExc ''AttributeError'' ''startswith'') index w1))"

section \<open>Checkpoint files (lines 19--29 and 79)\<close>

text \<open>
  \<^verbatim>\<open>df.to_csv(path, index=False)\<close> writes a missing value as the empty field and a string
  as its text.
\<close>

fun to_field :: "pyval \<Rightarrow> string" where
  "to_field (PyStr s) = s"
| "to_field PyNA = ''''"
| "to_field PyNone = ''''"

definition csv_of :: "dataset \<Rightarrow> csv" where
  "csv_of df = Csv2 (map (\<lambda>r. (to_field (summary r), to_field (translated_summary r))) df)"

definition to_csv :: "dataset \<Rightarrow> path \<Rightarrow> world \<Rightarrow> world" where
  "to_csv df p w = w\<lparr>written := written w @ [(p, csv_of df)]\<rparr>"

text \<open>
  \<^verbatim>\<open>pd.read_csv(path)\<close> with its defaults reads the empty field, and each of pandas'
  default missing-value tokens, as \<^verbatim>\<open>NaN\<close>. Only text columns are modelled.
\<close>

definition na_values :: "string list" where
  "na_values =
     ['''', ''#N/A'', ''#N/A N/A'', ''#NA'', ''-1.#IND'', ''-1.#QNAN'', ''-NaN'', ''-nan'',
      ''1.#IND'', ''1.#QNAN'', ''<NA>'', ''N/A'', ''NA'', ''NULL'', ''NaN'', ''None'',
      ''n/a'', ''nan'', ''null'']"

definition from_field :: "string \<Rightarrow> pyval" where
  "from_field s = (if s \<in> set na_values then PyNA else PyStr s)"

text \<open>
  Lines 19--29: the checkpoint when it exists, the input file otherwise; a file without
  the \<^verbatim>\<open>translated_summary\<close> column gets one, missing in every row.
\<close>

fun read_csv :: "csv \<Rightarrow> world \<Rightarrow> dataset \<times> world" where
  "read_csv (Csv2 rows) w =
     (map (\<lambda>(s, t). \<lparr>summary = from_field s, translated_summary = from_field t\<rparr>) rows, w)"
| "read_csv (Csv1 rows) w =
     (map (\<lambda>s. \<lparr>summary = from_field s, translated_summary = PyNA\<rparr>) rows,
      logging CreatedColumn w)"

definition load :: "csv option \<Rightarrow> csv \<Rightarrow> world \<Rightarrow> dataset \<times> world" where
  "load checkpoint input w =
     (case checkpoint of
        Some c \<Rightarrow> read_csv c (logging Resuming w)
      | None \<Rightarrow> read_csv input (logging StartingNew w))"

section \<open>The row loop (lines 71--90)\<close>

text \<open>
  One pass of the loop body for the row at \<open>index\<close>. \<open>Inl e\<close>: the exception \<open>e\<close> leaves
  the body (the loop has no handler, so the script ends there). \<^verbatim>\<open>len\<close> of a translation
  that is not a string raises \<^verbatim>\<open>TypeError\<close> in \<^verbatim>\<open>truncate_text\<close>. Progress output
  (\<^verbatim>\<open>print\<close>, \<^verbatim>\<open>tqdm\<close>) is left out.
\<close>

definition loop_body :: "env \<Rightarrow> nat \<Rightarrow> dataset \<Rightarrow> world \<Rightarrow> (py_exc + dataset) \<times> world" where
  "loop_body env index df w =
     (if isna (translated_summary (df ! index)) then
        (let original_text = truncate_text (py_str (summary (df ! index))) 150 in
         case translate_text env (PyStr original_text) index w of
           (Inl e, w1) \<Rightarrow> (Inl e, w1)
         | (Inr (PyStr translated_text), w1) \<Rightarrow>
             (let df1 = df[index := (df ! index)
                          \<lparr>translated_summary := PyStr (truncate_text translated_text 150)\<rparr>];
                  w2 = (if index mod 10 = 0
                        then logging (CheckpointSaved index) (to_csv df1 CheckpointFile w1)
                        else w1)
              in (Inr df1, time_sleep 1 w2))
         | (Inr _, w1) \<Rightarrow> (Inl (PyExc ''TypeError'' ''len''), w1))
      else (Inr df, time_sleep 1 w))"

text \<open>\<^verbatim>\<open>for index, row in df.iterrows()\<close>, over the row indices in order.\<close>

fun row_loop :: "env \<Rightarrow> nat list \<Rightarrow> dataset \<Rightarrow> world \<Rightarrow> (py_exc + dataset) \<times> world" where
  "row_loop env [] df w = (Inr df, w)"
| "row_loop env (index # rest) df w =
     (case loop_body env index df w of
        (Inl e, w1) \<Rightarrow> (Inl e, w1)
      | (Inr df1, w1) \<Rightarrow> row_loop env rest df1 w1)"

section \<open>Statistics and the whole run (lines 94--109)\<close>

record statistics =
  total_articles :: nat
  successful_translations :: nat
  failed_translations :: nat

text \<open>\<^verbatim>\<open>.str.startswith((p1, p2, p3), na=False)\<close> on one cell.\<close>

fun is_failure :: "pyval \<Rightarrow> bool" where
  "is_failure (PyStr s) =
     (startswith s ''Translation failed'' \<or> startswith s ''Network error''
      \<or> startswith s ''Unexpected error'')"
| "is_failure PyNA = False"
| "is_failure PyNone = False"

definition compute_statistics :: "dataset \<Rightarrow> statistics" where
  "compute_statistics df =
     \<lparr>total_articles = length df,
      successful_translations = length (filter (\<lambda>r. \<not> isna (translated_summary r)) df),
      failed_translations = length (filter (\<lambda>r. is_failure (translated_summary r)) df)\<rparr>"

text \<open>
  The script from line 67 on, for the dataset \<open>df\<close> that lines 19--29 loaded: the row
  loop, the output file, the statistics. The success rate printed at line 107 is a
  floating-point number and is left out.
\<close>

definition run :: "env \<Rightarrow> dataset \<Rightarrow> world \<Rightarrow> (py_exc + dataset \<times> statistics) \<times> world" where
  "run env df w =
     (case row_loop env [0..<length df] df w of
        (Inl e, w1) \<Rightarrow> (Inl e, w1)
      | (Inr df1, w1) \<Rightarrow>
          (let w2 = logging JobCompleted (to_csv df1 OutputFile w1);
               st = compute_statistics df1
           in (Inr (df1, st),
               logging (Completed (total_articles st) (successful_translations st)
                          (failed_translations st)) w2)))"

section \<open>Observing a run\<close>

text \<open>The checkpoint entries of the log, and the contents written to the checkpoint file.\<close>

fun is_checkpoint_saved :: "log_entry \<Rightarrow> bool" where
  "is_checkpoint_saved (CheckpointSaved index) = True"
| "is_checkpoint_saved _ = False"

definition checkpoint_log :: "world \<Rightarrow> log_entry list" where
  "checkpoint_log w = filter is_checkpoint_saved (log w)"

definition checkpoint_writes :: "world \<Rightarrow> csv list" where
  "checkpoint_writes w = map snd (filter (\<lambda>pc. fst pc = CheckpointFile) (written w))"

text \<open>The row at \<open>index\<close> has no translation yet (line 72).\<close>

definition pending :: "dataset \<Rightarrow> nat \<Rightarrow> bool" where
  "pending df index = isna (translated_summary (df ! index))"

text \<open>Every value a translator returns is a string.\<close>

definition returns_strings :: "env \<Rightarrow> bool" where
  "returns_strings env = (\<forall>tr k text v. env tr k text = Inr v \<longrightarrow> (\<exists>s. v = PyStr s))"

section \<open>Example environments\<close>

text \<open>Both translators raise \<^verbatim>\<open>ConnectionError\<close> on every call.\<close>

definition boom :: env where
  "boom tr k text = Inl (PyExc ''ConnectionError'' ''boom'')"

text \<open>Every translator fails on its first two calls and answers \<^verbatim>\<open>Hello\<close> from the third.\<close>

definition flaky :: env where
  "flaky tr k text = (if k < 2 then Inl (PyExc ''Timeout'' ''slow'') else Inr (PyStr ''Hello''))"

text \<open>Every translator returns \<^verbatim>\<open>None\<close>.\<close>

definition returns_none :: env where
  "returns_none tr k text = Inr PyNone"

text \<open>Every translator answers \<^verbatim>\<open>Hello\<close>.\<close>

definition hello :: env where
  "hello tr k text = Inr (PyStr ''Hello'')"

section \<open>Example datasets\<close>

text \<open>A translated row and an untranslated one, and datasets made of them.\<close>

definition done_row :: row where
  "done_row = \<lparr>summary = PyStr ''Hola'', translated_summary = PyStr ''Hello''\<rparr>"

definition todo_row :: row where
  "todo_row = \<lparr>summary = PyStr ''Hola'', translated_summary = PyNA\<rparr>"

definition resumed :: dataset where
  "resumed = [done_row, todo_row]"

definition two_pending :: dataset where
  "two_pending = [todo_row, todo_row]"

definition eleven :: dataset where
  "eleven = [todo_row, done_row, done_row, done_row, done_row, done_row, done_row, done_row,
             done_row, done_row, todo_row]"

text \<open>The three rows with summaries \<^verbatim>\<open>Hola mundo\<close>, the empty string and a missing value.\<close>

definition canonical :: dataset where
  "canonical = [\<lparr>summary = PyStr ''Hola mundo'', translated_summary = PyNA\<rparr>,
                \<lparr>summary = PyStr [], translated_summary = PyNA\<rparr>,
                \<lparr>summary = PyNA, translated_summary = PyNA\<rparr>]"

text \<open>
  The first translator maps \<^verbatim>\<open>Hola mundo\<close> to \<^verbatim>\<open>Hello world\<close>; every other call raises
  \<^verbatim>\<open>KeyError\<close> with the text as its message.
\<close>

definition hola_stub :: env where
  "hola_stub tr k text =
     (if tr = GoogleTranslator \<and> text = ''Hola mundo'' then Inr (PyStr ''Hello world'')
      else Inl (PyExc ''KeyError'' text))"

text \<open>Every translator returns the empty string.\<close>

definition blank :: env where
  "blank tr k text = Inr (PyStr [])"

section \<open>Truncation\<close>

lemma rsplit_space_none: "CHR '' '' \<notin> set t \<Longrightarrow> rsplit_space t = [t]"
  by (simp add: rsplit_space_def)

lemma rsplit_space_split:
  assumes "CHR '' '' \<notin> set b"
  shows "rsplit_space (a @ CHR '' '' # b) = [a, b]"
proof -
  have nb: "\<And>c. c \<in> set (rev b) \<Longrightarrow> c \<noteq> CHR '' ''" using assms by auto
  have tw: "takeWhile (\<lambda>c. c \<noteq> CHR '' '') (rev b @ CHR '' '' # rev a) = rev b"
    using nb by (subst takeWhile_append2) auto
  have dw: "dropWhile (\<lambda>c. c \<noteq> CHR '' '') (rev b @ CHR '' '' # rev a) = CHR '' '' # rev a"
    using nb by (subst dropWhile_append2) auto
  show ?thesis using tw dw by (simp add: rsplit_space_def)
qed

lemma last_space_split:
  "CHR '' '' \<in> set t \<Longrightarrow> \<exists>a b. t = a @ CHR '' '' # b \<and> CHR '' '' \<notin> set b"
  by (metis split_list_last)

lemma slice_to_length: "0 \<le> n \<Longrightarrow> n < int (length text) \<Longrightarrow> length (slice_to text n) = nat n"
  by (simp add: slice_to_def)

lemma truncate_text_short: "int (length text) \<le> n \<Longrightarrow> truncate_text text n = text"
  by (simp add: truncate_text_def)

lemma truncate_text_no_space:
  "n < int (length text) \<Longrightarrow> CHR '' '' \<notin> set (slice_to text n) \<Longrightarrow>
   truncate_text text n = slice_to text n @ ''...''"
  by (simp add: truncate_text_def rsplit_space_none)

lemma truncate_text_space:
  "n < int (length text) \<Longrightarrow> slice_to text n = a @ CHR '' '' # b \<Longrightarrow> CHR '' '' \<notin> set b \<Longrightarrow>
   truncate_text text n = a @ ''...''"
  by (simp add: truncate_text_def rsplit_space_split)

lemma truncate_text_length_le:
  assumes "0 \<le> n"
  shows "int (length (truncate_text text n)) \<le> n + 3"
proof (cases "int (length text) \<le> n")
  case True
  then show ?thesis by (simp add: truncate_text_short)
next
  case long: False
  then have len: "length (slice_to text n) = nat n" using assms by (simp add: slice_to_length)
  show ?thesis
  proof (cases "CHR '' '' \<in> set (slice_to text n)")
    case True
    then obtain a b where ab: "slice_to text n = a @ CHR '' '' # b" "CHR '' '' \<notin> set b"
      using last_space_split by blast
    have "length a < nat n" using len ab(1) by simp
    then show ?thesis using long ab by (simp add: truncate_text_space)
  next
    case False
    then show ?thesis using long len assms by (simp add: truncate_text_no_space)
  qed
qed

lemma truncate_text_exceeds:
  assumes "0 \<le> n" "n < int (length text)"
  shows "(n < int (length (truncate_text text n))) =
         (CHR '' '' \<notin> set (slice_to text n) \<or> length (last (rsplit_space (slice_to text n))) < 2)"
proof -
  have len: "length (slice_to text n) = nat n" using assms by (simp add: slice_to_length)
  show ?thesis
  proof (cases "CHR '' '' \<in> set (slice_to text n)")
    case True
    then obtain a b where ab: "slice_to text n = a @ CHR '' '' # b" "CHR '' '' \<notin> set b"
      using last_space_split by blast
    have "nat n = length a + 1 + length b" using len ab(1) by simp
    then have "n = int (length a) + 1 + int (length b)" using assms(1) by linarith
    then show ?thesis using assms ab True by (simp add: truncate_text_space rsplit_space_split) 
  next
    case False
    then show ?thesis using assms len by (simp add: truncate_text_no_space)
  qed
qed

text \<open>
  Claim C3, as amended. A text no longer than \<open>max_length\<close> comes back unchanged. A longer
  one comes back as \<^verbatim>\<open>text[:max_length]\<close>, cut back to just before its last space character
  (the whole of \<^verbatim>\<open>text[:max_length]\<close> when it holds no space), followed by \<^verbatim>\<open>...\<close>. For a
  bound that is not negative the result is at most \<open>max_length + 3\<close> long, and it is longer
  than \<open>max_length\<close> exactly when \<^verbatim>\<open>text[:max_length]\<close> holds no space or fewer than two
  characters follow its last space.
\<close>

theorem truncate_text_contract:
  "(int (length text) \<le> n \<longrightarrow> truncate_text text n = text) \<and>
   (n < int (length text) \<longrightarrow> CHR '' '' \<notin> set (slice_to text n) \<longrightarrow>
      truncate_text text n = slice_to text n @ ''...'') \<and>
   (n < int (length text) \<longrightarrow> slice_to text n = a @ CHR '' '' # b \<longrightarrow> CHR '' '' \<notin> set b \<longrightarrow>
      truncate_text text n = a @ ''...'') \<and>
   (0 \<le> n \<longrightarrow> int (length (truncate_text text n)) \<le> n + 3) \<and>
   (0 \<le> n \<longrightarrow> n < int (length text) \<longrightarrow>
      (n < int (length (truncate_text text n))) =
      (CHR '' '' \<notin> set (slice_to text n) \<or> length (last (rsplit_space (slice_to text n))) < 2))"
  using truncate_text_short truncate_text_no_space truncate_text_space
    truncate_text_length_le truncate_text_exceeds by blast

text \<open>
  Claim C3, witness: the amended contract at the bound 3, on a short text, on a text with
  no space and on a text whose cut ends one character after a space.
\<close>

theorem truncate_text_contract_witness:
  "truncate_text ''a b'' 3 = ''a b'' \<and>
   truncate_text ''abcd'' 3 = ''abc...'' \<and>
   truncate_text ''a b c'' 3 = ''a...'' \<and>
   int (length (truncate_text ''a b c'' 3)) \<le> 3 + 3 \<and>
   (3 < int (length (truncate_text ''a b c'' 3)))"
proof -
  have 1: "truncate_text ''a b'' 3 = ''a b''"
    using truncate_text_contract [of "''a b''" 3] by simp
  have 2: "truncate_text ''abcd'' 3 = ''abc...''"
    using truncate_text_contract [of "''abcd''" 3] by (simp add: slice_to_def)
  have 3: "truncate_text ''a b c'' 3 = ''a...''"
    using truncate_text_contract [of "''a b c''" 3 "''a''" "''b''"] by (simp add: slice_to_def)
  have 4: "int (length (truncate_text ''a b c'' 3)) \<le> 3 + 3"
    using truncate_text_contract [of "''a b c''" 3] by simp
  have 5: "3 < int (length (truncate_text ''a b c'' 3))"
    using truncate_text_contract [of "''a b c''" 3] by (simp add: slice_to_def rsplit_space_def)
  show ?thesis using 1 2 3 4 5 by blast
qed

text \<open>
  Claim C3, counterexample: the result for \<^verbatim>\<open>a b c\<close> and the bound 3 is longer than the
  bound although the cut holds a space; and for the bound \<open>-1\<close> the result is more than three
  characters longer than the bound.
\<close>

theorem truncate_text_contract_counterexample:
  "truncate_text ''a b c'' 3 = ''a...'' \<and> 3 < int (length (truncate_text ''a b c'' 3)) \<and>
   CHR '' '' \<in> set (slice_to ''a b c'' 3) \<and>
   truncate_text ''abcdefgh'' (- 1) = ''abcdefg...'' \<and>
   - 1 + 3 < int (length (truncate_text ''abcdefgh'' (- 1)))"
  by (simp add: truncate_text_def slice_to_def rsplit_space_def)

lemma dots_no_space: "CHR '' '' \<notin> set (take k ''...'')"
  using set_take_subset [of k "''...''"] by auto

lemma truncate_text_again_no_space:
  assumes "0 \<le> n" "n < int (length text)" "CHR '' '' \<notin> set (slice_to text n)"
  shows "truncate_text (truncate_text text n) n = truncate_text text n"
proof -
  have len: "length (slice_to text n) = nat n" using assms by (simp add: slice_to_length)
  have t1: "truncate_text text n = slice_to text n @ ''...''"
    using assms by (simp add: truncate_text_no_space)
  have long: "n < int (length (slice_to text n @ ''...''))" using len assms(1) by simp
  have sl: "slice_to (slice_to text n @ ''...'') n = slice_to text n"
    using len assms(1) by (simp add: slice_to_def)
  show ?thesis unfolding t1 using long sl assms(3) by (simp add: truncate_text_no_space)
qed

lemma truncate_text_again_near_end:
  assumes "0 \<le> n" "n < int (length text)"
    and ab: "slice_to text n = a @ CHR '' '' # b" "CHR '' '' \<notin> set b"
    and near: "length b < 2"
  shows "truncate_text (truncate_text text n) n \<noteq> truncate_text text n"
proof -
  have len: "length (slice_to text n) = nat n" using assms(1,2) by (simp add: slice_to_length)
  have n_eq: "nat n = length a + 1 + length b" using len ab(1) by simp
  have t1: "truncate_text text n = a @ ''...''"
    using assms by (simp add: truncate_text_space)
  have long: "n < int (length (a @ ''...''))" using n_eq near assms(1) by simp
  define d where "d = take (1 + length b) ''...''"
  have d_len: "length d = 1 + length b" using near by (simp add: d_def)
  have d_sp: "CHR '' '' \<notin> set d" unfolding d_def by (rule dots_no_space)
  have sl: "slice_to (a @ ''...'') n = a @ d"
    using n_eq assms(1) by (simp add: slice_to_def d_def)
  have neq: "hd (rsplit_space (a @ d)) \<noteq> a"
  proof (cases "CHR '' '' \<in> set a")
    case True
    then obtain a1 a2 where a: "a = a1 @ CHR '' '' # a2" "CHR '' '' \<notin> set a2"
      using last_space_split by blast
    have "rsplit_space (a1 @ CHR '' '' # (a2 @ d)) = [a1, a2 @ d]"
      using a(2) d_sp by (intro rsplit_space_split) simp
    then show ?thesis using a(1) by auto
  next
    case False
    then have "rsplit_space (a @ d) = [a @ d]" using d_sp by (intro rsplit_space_none) simp
    then show ?thesis using d_len by auto
  qed
  have "truncate_text (a @ ''...'') n = hd (rsplit_space (a @ d)) @ ''...''"
    using long sl by (simp add: truncate_text_def)
  then show ?thesis unfolding t1 using neq by simp
qed

text \<open>
  Claim C2, as amended. For a bound \<open>n\<close> that is not negative, truncating a second time
  gives the result of truncating once exactly when the text is at most \<open>n\<close> long, or
  \<^verbatim>\<open>text[:n]\<close> holds no space, or the once-truncated text is at most \<open>n\<close> long.
\<close>

theorem truncate_text_idempotent_iff:
  assumes "0 \<le> n"
  shows "(truncate_text (truncate_text text n) n = truncate_text text n) =
         (int (length text) \<le> n \<or> CHR '' '' \<notin> set (slice_to text n)
          \<or> int (length (truncate_text text n)) \<le> n)"
proof (cases "int (length text) \<le> n")
  case True
  then show ?thesis by (simp add: truncate_text_short)
next
  case long: False
  show ?thesis
  proof (cases "CHR '' '' \<in> set (slice_to text n)")
    case False
    then show ?thesis using assms long by (simp add: truncate_text_again_no_space)
  next
    case True
    then obtain a b where ab: "slice_to text n = a @ CHR '' '' # b" "CHR '' '' \<notin> set b"
      using last_space_split by blast
    show ?thesis
    proof (cases "int (length (truncate_text text n)) \<le> n")
      case True
      then show ?thesis by (simp add: truncate_text_short)
    next
      case False
      then have "length (last (rsplit_space (slice_to text n))) < 2"
        using truncate_text_exceeds [of n "text"] assms long True by simp
      then have "length b < 2" using ab by (simp add: rsplit_space_split)
      then have "truncate_text (truncate_text text n) n \<noteq> truncate_text text n"
        using truncate_text_again_near_end [of n "text" a b] assms long ab by simp
      then show ?thesis using long True False by simp
    qed
  qed
qed

text \<open>
  Claim C2, witness: the amended claim at the bounds 6 and 3, on a text whose truncation
  fits the bound, on one with no space, and on one where the second truncation differs.
\<close>

theorem truncate_text_idempotent_iff_witness:
  "truncate_text (truncate_text ''ab cdef'' 6) 6 = truncate_text ''ab cdef'' 6 \<and>
   truncate_text (truncate_text ''abcd'' 3) 3 = truncate_text ''abcd'' 3 \<and>
   truncate_text (truncate_text ''a b c'' 3) 3 \<noteq> truncate_text ''a b c'' 3"
proof -
  have 1: "truncate_text (truncate_text ''ab cdef'' 6) 6 = truncate_text ''ab cdef'' 6"
    using truncate_text_idempotent_iff [of 6 "''ab cdef''"]
    by (simp add: truncate_text_def slice_to_def rsplit_space_def)
  have 2: "truncate_text (truncate_text ''abcd'' 3) 3 = truncate_text ''abcd'' 3"
    using truncate_text_idempotent_iff [of 3 "''abcd''"]
    by (simp add: slice_to_def)
  have 3: "truncate_text (truncate_text ''a b c'' 3) 3 \<noteq> truncate_text ''a b c'' 3"
    using truncate_text_idempotent_iff [of 3 "''a b c''"]
    by (simp add: slice_to_def truncate_text_def rsplit_space_def)
  show ?thesis using 1 2 3 by blast
qed

text \<open>
  Claim C2, counterexample: truncating \<^verbatim>\<open>a b c\<close> at 3 gives \<^verbatim>\<open>a...\<close>, and truncating that
  again at 3 gives \<^verbatim>\<open>a.....\<close>; the same with \<^verbatim>\<open>ab\<close> and the bound \<open>-1\<close>.
\<close>

theorem truncate_text_idempotent_counterexample:
  "truncate_text ''a b c'' 3 = ''a...'' \<and>
   truncate_text (truncate_text ''a b c'' 3) 3 = ''a.....'' \<and>
   truncate_text ''ab'' (- 1) = ''a...'' \<and>
   truncate_text (truncate_text ''ab'' (- 1)) (- 1) = ''a.....''"
  by (simp add: truncate_text_def slice_to_def rsplit_space_def)

section \<open>Retry with backoff\<close>

lemma backoff_loop_failing:
  assumes "\<forall>k. env tr k text = Inl (err k)"
  shows "backoff_loop env text tr 5 [0, 1, 2, 3, 4] w =
         (Some (PyStr (''Translation failed: '' @ exc_str (err (calls_of tr w + 4)))),
          w\<lparr>calls := calls w @ replicate 5 (tr, text),
            sleeps := sleeps w @ [1, 2, 4, 8],
            log := log w @ map (\<lambda>i. AttemptFailed (i + 1) (err (calls_of tr w + i))) [0, 1, 2, 3, 4]\<rparr>)"
  using assms
  by (simp add: translate_def logging_def time_sleep_def calls_of_def numeral_eq_Suc)

lemma py_range_5: "py_range 5 = [0, 1, 2, 3, 4]"
  by (simp add: py_range_def upt_rec numeral_eq_Suc)

lemma translate_with_backoff_failing:
  assumes "\<forall>k. env tr k text = Inl (err k)"
  shows "translate_with_backoff env text tr 5 w =
         (PyStr (''Translation failed: '' @ exc_str (err (calls_of tr w + 4))),
          w\<lparr>calls := calls w @ replicate 5 (tr, text),
            sleeps := sleeps w @ [1, 2, 4, 8],
            log := log w @ map (\<lambda>i. AttemptFailed (i + 1) (err (calls_of tr w + i))) [0, 1, 2, 3, 4]\<rparr>)"
  unfolding translate_with_backoff_def py_range_5
  using backoff_loop_failing [of env tr "text" err w] assms by simp

lemma startswith_failed: "startswith (''Translation failed: '' @ s) ''Translation failed''"
  by (simp add: startswith_def)

text \<open>
  Claim C4, as amended. When every call of a translator on the text raises,
  \<^verbatim>\<open>translate_with_backoff\<close> with \<^verbatim>\<open>max_retries = 5\<close> calls it exactly five times, logs the five
  failures, sleeps 1, 2, 4 and 8 seconds between the attempts (nothing after the fifth), and
  returns \<^verbatim>\<open>Translation failed: \<close> followed by the text of the fifth error. When that
  translator is the first one, \<^verbatim>\<open>translate_text\<close> then logs the warning and calls the second
  translator, on the same text, in the world those five attempts left.
\<close>

theorem always_failing_provider:
  assumes "\<forall>k. env tr k text = Inl (err k)"
  shows "translate_with_backoff env text tr 5 w =
           (PyStr (''Translation failed: '' @ exc_str (err (calls_of tr w + 4))),
            w\<lparr>calls := calls w @ replicate 5 (tr, text),
              sleeps := sleeps w @ [1, 2, 4, 8],
              log := log w @ map (\<lambda>i. AttemptFailed (i + 1) (err (calls_of tr w + i))) [0, 1, 2, 3, 4]\<rparr>)
         \<and> (tr = GoogleTranslator \<longrightarrow> text \<noteq> '''' \<longrightarrow>
              translate_text env (PyStr text) index w =
                (case translate_with_backoff env text MyMemoryTranslator 5
                        (logging (FallbackWarning index)
                          (w\<lparr>calls := calls w @ replicate 5 (GoogleTranslator, text),
                             sleeps := sleeps w @ [1, 2, 4, 8],
                             log := log w @ map (\<lambda>i. AttemptFailed (i + 1)
                                      (err (calls_of GoogleTranslator w + i))) [0, 1, 2, 3, 4]\<rparr>)) of
                   (result, w3) \<Rightarrow> (Inr result, w3)))"
proof (intro conjI impI)
  show "translate_with_backoff env text tr 5 w =
           (PyStr (''Translation failed: '' @ exc_str (err (calls_of tr w + 4))),
            w\<lparr>calls := calls w @ replicate 5 (tr, text),
              sleeps := sleeps w @ [1, 2, 4, 8],
              log := log w @ map (\<lambda>i. AttemptFailed (i + 1) (err (calls_of tr w + i))) [0, 1, 2, 3, 4]\<rparr>)"
    using translate_with_backoff_failing [of env tr "text" err w] assms by simp
next
  assume tr: "tr = GoogleTranslator" and ne: "text \<noteq> ''''"
  have g: "\<forall>k. env GoogleTranslator k text = Inl (err k)" using assms tr by simp
  show "translate_text env (PyStr text) index w =
                (case translate_with_backoff env text MyMemoryTranslator 5
                        (logging (FallbackWarning index)
                          (w\<lparr>calls := calls w @ replicate 5 (GoogleTranslator, text),
                             sleeps := sleeps w @ [1, 2, 4, 8],
                             log := log w @ map (\<lambda>i. AttemptFailed (i + 1)
                                      (err (calls_of GoogleTranslator w + i))) [0, 1, 2, 3, 4]\<rparr>)) of
                   (result, w3) \<Rightarrow> (Inr result, w3))"
    using ne translate_with_backoff_failing [of env GoogleTranslator "text" err w] g
    by (simp add: startswith_def)
qed

text \<open>
  Claim C4, witness: both translators raise \<^verbatim>\<open>ConnectionError\<close> on every call.
\<close>

theorem always_failing_provider_witness:
  "translate_with_backoff boom ''Hola'' GoogleTranslator 5 world0 =
     (PyStr ''Translation failed: boom'',
      \<lparr>calls = replicate 5 (GoogleTranslator, ''Hola''), sleeps = [1, 2, 4, 8],
       log = map (\<lambda>i. AttemptFailed (i + 1) (PyExc ''ConnectionError'' ''boom'')) [0, 1, 2, 3, 4],
       written = []\<rparr>)
   \<and> fst (translate_text boom (PyStr ''Hola'') 7 world0) = Inr (PyStr ''Translation failed: boom'')
   \<and> calls (snd (translate_text boom (PyStr ''Hola'') 7 world0)) =
       replicate 5 (GoogleTranslator, ''Hola'') @ replicate 5 (MyMemoryTranslator, ''Hola'')"
proof -
  have f: "\<forall>k. boom tr k ''Hola'' = Inl (PyExc ''ConnectionError'' ''boom'')" for tr
    by (simp add: boom_def)
  have g: "translate_with_backoff boom ''Hola'' tr 5 w =
           (PyStr ''Translation failed: boom'',
            w\<lparr>calls := calls w @ replicate 5 (tr, ''Hola''),
              sleeps := sleeps w @ [1, 2, 4, 8],
              log := log w @ map (\<lambda>i. AttemptFailed (i + 1) (PyExc ''ConnectionError'' ''boom''))
                       [0, 1, 2, 3, 4]\<rparr>)" for tr w
    using always_failing_provider
      [of boom tr "''Hola''" "\<lambda>k. PyExc ''ConnectionError'' ''boom''" w] f by simp
  have h: "translate_text boom (PyStr ''Hola'') 7 world0 =
     (case translate_with_backoff boom ''Hola'' MyMemoryTranslator 5
            (logging (FallbackWarning 7)
              (world0\<lparr>calls := calls world0 @ replicate 5 (GoogleTranslator, ''Hola''),
                 sleeps := sleeps world0 @ [1, 2, 4, 8],
                 log := log world0 @ map (\<lambda>i. AttemptFailed (i + 1)
                          (PyExc ''ConnectionError'' ''boom'')) [0, 1, 2, 3, 4]\<rparr>)) of
        (result, w3) \<Rightarrow> (Inr result, w3))"
    using always_failing_provider
      [of boom GoogleTranslator "''Hola''" "\<lambda>k. PyExc ''ConnectionError'' ''boom''" world0 7] f
    by (simp del: translate_text.simps)
  show ?thesis unfolding h g by (simp add: world0_def logging_def)
qed

text \<open>
  Claim C4, counterexample: with a translator that always raises, the sleeps of five
  attempts are 1, 2, 4 and 8; there is no sleep of 16.
\<close>

theorem backoff_sleeps_counterexample:
  "sleeps (snd (translate_with_backoff boom ''Hola'' GoogleTranslator 5 world0)) = [1, 2, 4, 8]
   \<and> length (calls (snd (translate_with_backoff boom ''Hola'' GoogleTranslator 5 world0))) = 5"
  by (simp add: translate_with_backoff_def py_range_5 boom_def translate_def logging_def
      time_sleep_def world0_def)

lemma backoff_loop_returns:
  "attempts \<noteq> [] \<Longrightarrow> int (last attempts) = n - 1 \<Longrightarrow>
   \<exists>v. fst (backoff_loop env text tr n attempts w) = Some v"
proof (induction attempts arbitrary: w)
  case Nil
  then show ?case by simp
next
  case (Cons attempt rest)
  show ?case
  proof (cases "env tr (calls_of tr w) text")
    case (Inr v)
    then show ?thesis by (simp add: translate_def)
  next
    case (Inl e)
    show ?thesis
    proof (cases "int attempt = n - 1")
      case True
      then show ?thesis using Inl by (simp add: translate_def)
    next
      case False
      then have "rest \<noteq> []" using Cons.prems by auto
      then show ?thesis using Inl False Cons by (simp add: translate_def)
    qed
  qed
qed

lemma backoff_loop_value:
  "fst (backoff_loop env text tr n attempts w) = Some v \<Longrightarrow>
   (\<exists>k. env tr k text = Inr v) \<or>
   (\<exists>k e. env tr k text = Inl e \<and> v = PyStr (''Translation failed: '' @ exc_str e))"
proof (induction attempts arbitrary: w)
  case Nil
  then show ?case by simp
next
  case (Cons attempt rest)
  show ?case
  proof (cases "env tr (calls_of tr w) text")
    case (Inr v')
    then have "v = v'" using Cons.prems by (simp add: translate_def)
    then show ?thesis using Inr by blast
  next
    case (Inl e)
    show ?thesis
    proof (cases "int attempt = n - 1")
      case True
      then have "v = PyStr (''Translation failed: '' @ exc_str e)"
        using Inl Cons.prems by (simp add: translate_def)
      then show ?thesis using Inl by blast
    next
      case False
      then show ?thesis using Inl Cons by (simp add: translate_def)
    qed
  qed
qed

lemma py_range_last: "1 \<le> n \<Longrightarrow> py_range n \<noteq> [] \<and> int (last (py_range n)) = n - 1"
  by (simp add: py_range_def)

text \<open>
  Claim C10. With \<^verbatim>\<open>max_retries\<close> at least 1 the loop of \<^verbatim>\<open>translate_with_backoff\<close> always
  ends in one of its own \<^verbatim>\<open>return\<close> statements, with a value the translator returned or
  with \<^verbatim>\<open>Translation failed: \<close> and the text of an error it raised, so line 44 is not
  reached. With \<^verbatim>\<open>max_retries = 0\<close> the function returns the string of line 44 and leaves
  the world as it was: no call, no sleep, no log entry.
\<close>

theorem fallthrough_unreachable:
  "(1 \<le> max_retries \<longrightarrow>
      (\<exists>v. fst (backoff_loop env text tr max_retries (py_range max_retries) w) = Some v \<and>
           ((\<exists>k. env tr k text = Inr v) \<or>
            (\<exists>k e. env tr k text = Inl e \<and> v = PyStr (''Translation failed: '' @ exc_str e)))))
   \<and> translate_with_backoff env text tr 0 w =
       (PyStr ''Translation failed after maximum retries'', w)"
proof (intro conjI impI)
  assume "1 \<le> max_retries"
  then obtain v where v: "fst (backoff_loop env text tr max_retries (py_range max_retries) w) = Some v"
    using backoff_loop_returns py_range_last by blast
  then show "\<exists>v. fst (backoff_loop env text tr max_retries (py_range max_retries) w) = Some v \<and>
           ((\<exists>k. env tr k text = Inr v) \<or>
            (\<exists>k e. env tr k text = Inl e \<and> v = PyStr (''Translation failed: '' @ exc_str e)))"
    using backoff_loop_value by blast
next
  show "translate_with_backoff env text tr 0 w =
       (PyStr ''Translation failed after maximum retries'', w)"
    by (simp add: translate_with_backoff_def py_range_def)
qed

text \<open>
  Claim C10, witness: five retries of a translator that fails twice and then answers, one
  retry of a translator that always fails, and no retry at all.
\<close>

theorem fallthrough_unreachable_witness:
  "fst (backoff_loop flaky ''Hola'' GoogleTranslator 5 (py_range 5) world0) \<noteq> None
   \<and> fst (backoff_loop flaky ''Hola'' GoogleTranslator 5 (py_range 5) world0) = Some (PyStr ''Hello'')
   \<and> fst (backoff_loop boom ''Hola'' GoogleTranslator 1 (py_range 1) world0) \<noteq> None
   \<and> fst (backoff_loop boom ''Hola'' GoogleTranslator 1 (py_range 1) world0)
       = Some (PyStr ''Translation failed: boom'')
   \<and> translate_with_backoff flaky ''Hola'' GoogleTranslator 0 world0 =
       (PyStr ''Translation failed after maximum retries'', world0)"
proof -
  have 1: "fst (backoff_loop flaky ''Hola'' GoogleTranslator 5 (py_range 5) world0) \<noteq> None"
    using fallthrough_unreachable [of 5 flaky "''Hola''" GoogleTranslator world0] by auto
  have 2: "fst (backoff_loop flaky ''Hola'' GoogleTranslator 5 (py_range 5) world0)
       = Some (PyStr ''Hello'')"
    by (simp add: py_range_5 flaky_def translate_def calls_of_def logging_def time_sleep_def
        world0_def)
  have 3: "fst (backoff_loop boom ''Hola'' GoogleTranslator 1 (py_range 1) world0) \<noteq> None"
    using fallthrough_unreachable [of 1 boom "''Hola''" GoogleTranslator world0] by auto
  have 4: "fst (backoff_loop boom ''Hola'' GoogleTranslator 1 (py_range 1) world0)
       = Some (PyStr ''Translation failed: boom'')"
    by (simp add: py_range_def boom_def translate_def)
  have 5: "translate_with_backoff flaky ''Hola'' GoogleTranslator 0 world0 =
       (PyStr ''Translation failed after maximum retries'', world0)"
    using fallthrough_unreachable [of 0 flaky "''Hola''" GoogleTranslator world0] by simp
  show ?thesis using 1 2 3 4 5 by blast
qed

text \<open>
  Claim C5, as amended. \<^verbatim>\<open>translate_with_backoff\<close> always returns a value, for every
  translator, text, number of retries and world: every exception of the translator is caught
  in the loop. The value is one the translator returned for the text, or a string that starts
  with \<^verbatim>\<open>Translation failed\<close>; it is a string whenever the translator returns only strings.
\<close>

theorem translate_with_backoff_returns:
  "((\<exists>k. env tr k text = Inr (fst (translate_with_backoff env text tr max_retries w))) \<or>
    (\<exists>s. fst (translate_with_backoff env text tr max_retries w) = PyStr s \<and>
         startswith s ''Translation failed''))
   \<and> ((\<forall>k v. env tr k text = Inr v \<longrightarrow> (\<exists>s. v = PyStr s)) \<longrightarrow>
        (\<exists>s. fst (translate_with_backoff env text tr max_retries w) = PyStr s))"
proof -
  have d: "(\<exists>k. env tr k text = Inr (fst (translate_with_backoff env text tr max_retries w))) \<or>
    (\<exists>s. fst (translate_with_backoff env text tr max_retries w) = PyStr s \<and>
         startswith s ''Translation failed'')"
  proof (cases "backoff_loop env text tr max_retries (py_range max_retries) w")
    case (Pair r w1)
    show ?thesis
    proof (cases r)
      case None
      then show ?thesis using Pair
        by (simp add: translate_with_backoff_def startswith_def)
    next
      case (Some v)
      then have v: "fst (translate_with_backoff env text tr max_retries w) = v"
        using Pair by (simp add: translate_with_backoff_def)
      have "fst (backoff_loop env text tr max_retries (py_range max_retries) w) = Some v"
        using Pair Some by simp
      from backoff_loop_value [OF this] show ?thesis
      proof
        assume "\<exists>k. env tr k text = Inr v"
        then show ?thesis using v by simp
      next
        assume "\<exists>k e. env tr k text = Inl e \<and> v = PyStr (''Translation failed: '' @ exc_str e)"
        then obtain e where "v = PyStr (''Translation failed: '' @ exc_str e)" by blast
        then have "\<exists>s. v = PyStr s \<and> startswith s ''Translation failed''"
          by (simp add: startswith_def)
        then show ?thesis using v by simp
      qed
    qed
  qed
  then show ?thesis by metis
qed

text \<open>
  Claim C5, witness: a translator that fails twice and then returns the string
  \<^verbatim>\<open>Hello\<close>.
\<close>

theorem translate_with_backoff_returns_witness:
  "fst (translate_with_backoff flaky ''Hola'' GoogleTranslator 5 world0) = PyStr ''Hello''
   \<and> (\<exists>s. fst (translate_with_backoff flaky ''Hola'' GoogleTranslator 5 world0) = PyStr s)"
proof -
  have 1: "fst (translate_with_backoff flaky ''Hola'' GoogleTranslator 5 world0) = PyStr ''Hello''"
    by (simp add: translate_with_backoff_def py_range_5 flaky_def translate_def calls_of_def
        logging_def time_sleep_def world0_def)
  have 2: "\<exists>s. fst (translate_with_backoff flaky ''Hola'' GoogleTranslator 5 world0) = PyStr s"
    using translate_with_backoff_returns [of flaky GoogleTranslator "''Hola''" 5 world0]
    by (auto simp add: flaky_def split: if_splits)
  show ?thesis using 1 2 by blast
qed

text \<open>
  Claim C5, counterexample: when the translator returns \<^verbatim>\<open>None\<close>, so does
  \<^verbatim>\<open>translate_with_backoff\<close>; line 38 returns the translator's value as it is.
\<close>

theorem translate_with_backoff_none_counterexample:
  "fst (translate_with_backoff returns_none ''Hola'' GoogleTranslator 5 world0) = PyNone"
  by (simp add: translate_with_backoff_def py_range_5 returns_none_def translate_def)

section \<open>What the translation of one row leaves untouched\<close>

lemma backoff_loop_frame:
  "backoff_loop env text tr n attempts w = (r, w') \<Longrightarrow>
   written w' = written w \<and> checkpoint_log w' = checkpoint_log w \<and>
   set (calls w) \<subseteq> set (calls w')"
proof (induction attempts arbitrary: w)
  case Nil
  then show ?case by simp
next
  case (Cons attempt rest)
  show ?case
  proof (cases "env tr (calls_of tr w) text")
    case (Inr v)
    then show ?thesis using Cons.prems
      by (auto simp add: translate_def checkpoint_log_def)
  next
    case (Inl e)
    show ?thesis
    proof (cases "int attempt = n - 1")
      case True
      then show ?thesis using Inl Cons.prems
        by (auto simp add: translate_def logging_def checkpoint_log_def)
    next
      case False
      let ?w2 = "time_sleep (2 ^ attempt)
                   (logging (AttemptFailed (attempt + 1) e) (w\<lparr>calls := calls w @ [(tr, text)]\<rparr>))"
      have "backoff_loop env text tr n rest ?w2 = (r, w')"
        using Inl False Cons.prems by (simp add: translate_def)
      from Cons.IH [OF this] show ?thesis
        by (auto simp add: logging_def time_sleep_def checkpoint_log_def)
    qed
  qed
qed

lemma translate_with_backoff_frame:
  "translate_with_backoff env text tr n w = (r, w') \<Longrightarrow>
   written w' = written w \<and> checkpoint_log w' = checkpoint_log w \<and>
   set (calls w) \<subseteq> set (calls w')"
  using backoff_loop_frame [of env "text" tr n "py_range n" w]
  by (auto simp add: translate_with_backoff_def split: prod.splits option.splits)

lemma translate_text_frame:
  "translate_text env v index w = (r, w') \<Longrightarrow>
   written w' = written w \<and> checkpoint_log w' = checkpoint_log w \<and>
   set (calls w) \<subseteq> set (calls w')"
proof (cases v)
  case (PyStr t)
  assume a: "translate_text env v index w = (r, w')"
  show ?thesis
  proof (cases "t = ''''")
    case True
    then show ?thesis using a PyStr by simp
  next
    case False
    obtain r1 w1 where g: "translate_with_backoff env t GoogleTranslator 5 w = (r1, w1)"
      by (cases "translate_with_backoff env t GoogleTranslator 5 w")
    note f1 = translate_with_backoff_frame [OF g]
    obtain r2 w3 where m: "translate_with_backoff env t MyMemoryTranslator 5
        (logging (FallbackWarning index) w1) = (r2, w3)"
      by (cases "translate_with_backoff env t MyMemoryTranslator 5 (logging (FallbackWarning index) w1)")
    note f2 = translate_with_backoff_frame [OF m]
    have l: "written (logging (FallbackWarning index) w1) = written w1"
       "checkpoint_log (logging (FallbackWarning index) w1) = checkpoint_log w1"
       "calls (logging (FallbackWarning index) w1) = calls w1"
      by (simp_all add: logging_def checkpoint_log_def)
    show ?thesis using a PyStr False g m f1 f2 l
      by (auto simp add: except_clauses_def module_globals_def split: pyval.splits if_splits)
  qed
qed simp_all

section \<open>One pass of the loop body\<close>

lemma loop_body_skip:
  "\<not> pending df i \<Longrightarrow> loop_body env i df w = (Inr df, time_sleep 1 w)"
  by (simp add: loop_body_def pending_def)

lemma loop_body_result:
  assumes "loop_body env i df w = (Inr df1, w1)" and "pending df i"
  shows "\<exists>t wt. translate_text env (PyStr (truncate_text (py_str (summary (df ! i))) 150)) i w
                  = (Inr (PyStr t), wt) \<and>
          df1 = df[i := (df ! i)\<lparr>translated_summary := PyStr (truncate_text t 150)\<rparr>] \<and>
          w1 = time_sleep 1 (if i mod 10 = 0
                  then logging (CheckpointSaved i) (to_csv df1 CheckpointFile wt) else wt)"
  using assms
  by (auto simp add: loop_body_def pending_def Let_def split: prod.splits sum.splits pyval.splits if_splits)

lemma checkpoint_log_simps [simp]:
  "checkpoint_log (time_sleep n w) = checkpoint_log w"
  "checkpoint_log (to_csv df p w) = checkpoint_log w"
  "checkpoint_log (logging e w) = checkpoint_log w @ (if is_checkpoint_saved e then [e] else [])"
  by (simp_all add: checkpoint_log_def time_sleep_def to_csv_def logging_def)

lemma checkpoint_writes_simps [simp]:
  "checkpoint_writes (time_sleep n w) = checkpoint_writes w"
  "checkpoint_writes (logging e w) = checkpoint_writes w"
  "checkpoint_writes (to_csv df p w) =
     checkpoint_writes w @ (if p = CheckpointFile then [csv_of df] else [])"
  by (simp_all add: checkpoint_writes_def time_sleep_def to_csv_def logging_def)

lemma checkpoint_writes_frame: "written w' = written w \<Longrightarrow> checkpoint_writes w' = checkpoint_writes w"
  by (simp add: checkpoint_writes_def)

lemma loop_body_effect:
  assumes "loop_body env i df w = (Inr df1, w1)"
  shows "length df1 = length df \<and> take i df1 = take i df \<and> drop (Suc i) df1 = drop (Suc i) df \<and>
         (i < length df \<longrightarrow> \<not> pending df1 i) \<and>
         (\<forall>j. j \<noteq> i \<longrightarrow> pending df1 j = pending df j) \<and>
         checkpoint_log w1 = checkpoint_log w @
           (if i mod 10 = 0 \<and> pending df i then [CheckpointSaved i] else []) \<and>
         checkpoint_writes w1 = checkpoint_writes w @
           (if i mod 10 = 0 \<and> pending df i then [csv_of df1] else [])"
proof (cases "pending df i")
  case False
  then have "df1 = df" "w1 = time_sleep 1 w" using assms loop_body_skip [of df i env w] by simp_all
  then show ?thesis using False by simp
next
  case True
  from loop_body_result [OF assms True] obtain t wt where
    tt: "translate_text env (PyStr (truncate_text (py_str (summary (df ! i))) 150)) i w
           = (Inr (PyStr t), wt)"
    and df1: "df1 = df[i := (df ! i)\<lparr>translated_summary := PyStr (truncate_text t 150)\<rparr>]"
    and w1: "w1 = time_sleep 1 (if i mod 10 = 0
                  then logging (CheckpointSaved i) (to_csv df1 CheckpointFile wt) else wt)"
    by blast
  note fr = translate_text_frame [OF tt]
  have cw: "checkpoint_writes wt = checkpoint_writes w" using fr checkpoint_writes_frame by blast
  have a: "length df1 = length df" "take i df1 = take i df" "drop (Suc i) df1 = drop (Suc i) df"
    using df1 by simp_all
  have b: "i < length df \<longrightarrow> \<not> pending df1 i" using df1 by (simp add: pending_def)
  have c: "\<forall>j. j \<noteq> i \<longrightarrow> pending df1 j = pending df j" using df1 by (simp add: pending_def)
  have d: "checkpoint_log w1 = checkpoint_log w @
           (if i mod 10 = 0 \<and> pending df i then [CheckpointSaved i] else [])"
    using w1 fr True by simp
  have e: "checkpoint_writes w1 = checkpoint_writes w @
           (if i mod 10 = 0 \<and> pending df i then [csv_of df1] else [])"
    using w1 cw True by simp
  show ?thesis using a b c d e by blast
qed

section \<open>The row loop\<close>

lemma row_loop_checkpoints:
  "row_loop env [a..<length df] df w = (Inr df', w') \<Longrightarrow>
   length df' = length df \<and> take a df' = take a df \<and>
   checkpoint_log w' = checkpoint_log w @
     map CheckpointSaved (filter (\<lambda>i. i mod 10 = 0 \<and> pending df i) [a..<length df]) \<and>
   checkpoint_writes w' = checkpoint_writes w @
     map (\<lambda>i. csv_of (take (Suc i) df' @ drop (Suc i) df))
         (filter (\<lambda>i. i mod 10 = 0 \<and> pending df i) [a..<length df])"
proof (induction "length df - a" arbitrary: a df w)
  case 0
  then have e: "[a..<length df] = []" by simp
  have "df' = df" "w' = w" using "0.prems" unfolding e by simp_all
  then show ?case unfolding e by simp
next
  case (Suc k)
  then have lt: "a < length df" by simp
  then have upt: "[a..<length df] = a # [Suc a..<length df]" by (simp add: upt_conv_Cons)
  obtain r1 w1 where lb: "loop_body env a df w = (r1, w1)" by (cases "loop_body env a df w")
  obtain df1 where r1: "r1 = Inr df1"
    using Suc.prems lb upt by (cases r1) simp_all
  note eff = loop_body_effect [OF lb [unfolded r1]]
  have len1: "length df1 = length df" using eff by simp
  have rest: "row_loop env [Suc a..<length df1] df1 w1 = (Inr df', w')"
    using Suc.prems lb r1 upt len1 by simp
  have k: "k = length df1 - Suc a" using Suc.hyps(2) len1 by simp
  note ih = Suc.hyps(1) [OF k rest]
  have same_filter: "filter (\<lambda>i. i mod 10 = 0 \<and> pending df1 i) [Suc a..<length df]
                   = filter (\<lambda>i. i mod 10 = 0 \<and> pending df i) [Suc a..<length df]"
    using eff by (intro filter_cong) auto
  have drop_eq: "drop (Suc i) df1 = drop (Suc i) df" if "Suc a \<le> i" for i
  proof -
    have "drop (Suc i) df1 = drop (i - a) (drop (Suc a) df1)" using that by simp
    also have "\<dots> = drop (i - a) (drop (Suc a) df)" using eff by simp
    also have "\<dots> = drop (Suc i) df" using that by simp
    finally show ?thesis .
  qed
  have same_map: "map (\<lambda>i. csv_of (take (Suc i) df' @ drop (Suc i) df1))
         (filter (\<lambda>i. i mod 10 = 0 \<and> pending df i) [Suc a..<length df])
       = map (\<lambda>i. csv_of (take (Suc i) df' @ drop (Suc i) df))
         (filter (\<lambda>i. i mod 10 = 0 \<and> pending df i) [Suc a..<length df])"
    using drop_eq by (intro map_cong) auto
  have take_a: "take a df' = take a df"
  proof -
    have "take a df' = take a (take (Suc a) df')" by (simp add: min_def)
    also have "\<dots> = take a (take (Suc a) df1)" using ih by simp
    also have "\<dots> = take a df1" by (simp add: min_def)
    finally show ?thesis using eff by simp
  qed
  have df1_eq: "df1 = take (Suc a) df' @ drop (Suc a) df"
  proof -
    have "df1 = take (Suc a) df1 @ drop (Suc a) df1" by simp
    then show ?thesis using ih eff by simp
  qed
  have log_eq: "checkpoint_log w' = checkpoint_log w @
     map CheckpointSaved (filter (\<lambda>i. i mod 10 = 0 \<and> pending df i) [a..<length df])"
    using ih eff same_filter len1 upt by simp
  have wr_eq: "checkpoint_writes w' = checkpoint_writes w @
     map (\<lambda>i. csv_of (take (Suc i) df' @ drop (Suc i) df))
         (filter (\<lambda>i. i mod 10 = 0 \<and> pending df i) [a..<length df])"
  proof -
    have "checkpoint_writes w' = checkpoint_writes w1 @
       map (\<lambda>i. csv_of (take (Suc i) df' @ drop (Suc i) df))
         (filter (\<lambda>i. i mod 10 = 0 \<and> pending df i) [Suc a..<length df])"
      using ih same_filter same_map len1 by simp
    moreover have "checkpoint_writes w1 = checkpoint_writes w @
           (if a mod 10 = 0 \<and> pending df a then [csv_of (take (Suc a) df' @ drop (Suc a) df)] else [])"
      using eff df1_eq by simp
    ultimately show ?thesis using upt by simp
  qed
  show ?case using ih len1 take_a log_eq wr_eq by simp
qed

lemma row_loop_coverage:
  "row_loop env idxs df w = (Inr df', w') \<Longrightarrow>
   length df' = length df \<and>
   (\<forall>i<length df. i \<in> set idxs \<or> \<not> pending df i \<longrightarrow> \<not> pending df' i)"
proof (induction idxs arbitrary: df w)
  case Nil
  then show ?case by simp
next
  case (Cons a rest)
  obtain r1 w1 where lb: "loop_body env a df w = (r1, w1)" by (cases "loop_body env a df w")
  obtain df1 where r1: "r1 = Inr df1"
    using Cons.prems lb by (cases r1) simp_all
  note eff = loop_body_effect [OF lb [unfolded r1]]
  have rest: "row_loop env rest df1 w1 = (Inr df', w')" using Cons.prems lb r1 by simp
  note ih = Cons.IH [OF rest]
  show ?case
  proof (intro conjI allI impI)
    show "length df' = length df" using ih eff by simp
  next
    fix i assume i: "i < length df" and h: "i \<in> set (a # rest) \<or> \<not> pending df i"
    have "i \<in> set rest \<or> \<not> pending df1 i"
    proof (cases "i = a")
      case True then show ?thesis using eff i by simp
    next
      case False then show ?thesis using eff h by auto
    qed
    moreover have "i < length df1" using eff i by simp
    ultimately show "\<not> pending df' i" using ih by blast
  qed
qed

section \<open>The whole run\<close>

lemma run_result:
  assumes "fst (run env df w) = Inr (df', st)"
  shows "\<exists>w1. row_loop env [0..<length df] df w = (Inr df', w1) \<and>
              st = compute_statistics df' \<and>
              snd (run env df w) =
                logging (Completed (total_articles st) (successful_translations st)
                           (failed_translations st))
                  (logging JobCompleted (to_csv df' OutputFile w1))"
  using assms by (auto simp add: run_def Let_def split: prod.splits sum.splits)

lemma translate_text_hello:
  "text \<noteq> [] \<Longrightarrow> translate_text hello (PyStr text) i w =
     (Inr (PyStr ''Hello''), w\<lparr>calls := calls w @ [(GoogleTranslator, text)]\<rparr>)"
  by (simp add: translate_with_backoff_def py_range_5 translate_def hello_def startswith_def)

lemma upt_11: "[0..<11] = [0, 1, 2, 3, 4, 5, 6, 7, 8, 9, 10]"
  by (simp add: upt_rec)

lemma run_hello_eleven:
  "fst (run hello eleven world0) =
     Inr ([done_row, done_row, done_row, done_row, done_row, done_row, done_row, done_row,
           done_row, done_row, done_row],
          \<lparr>total_articles = 11, successful_translations = 11, failed_translations = 0\<rparr>)"
  by (simp add: run_def eleven_def upt_11 loop_body_def translate_text_hello
      truncate_text_def Let_def compute_statistics_def startswith_def done_row_def todo_row_def
      del: translate_text.simps)

text \<open>
  Claim C8, as amended. In a run that completes, the checkpoint entries added to the log
  are those of the row indices that are multiples of 10 and whose row had no translation
  when the run began, in order; index 0 is among them when row 0 was untranslated. Each goes
  with one write of the checkpoint file, holding the whole dataset as it stands right after
  that row's translation is stored: the rows up to it as at the end of the run, the rows
  after it as at the beginning. A row that already has a translation is skipped and saves
  nothing, whatever its index.
\<close>

theorem checkpoint_trigger:
  assumes "fst (run env df w) = Inr (df', st)"
  shows "checkpoint_log (snd (run env df w)) = checkpoint_log w @
           map CheckpointSaved (filter (\<lambda>i. i mod 10 = 0 \<and> pending df i) [0..<length df])
         \<and> checkpoint_writes (snd (run env df w)) = checkpoint_writes w @
           map (\<lambda>i. csv_of (take (Suc i) df' @ drop (Suc i) df))
               (filter (\<lambda>i. i mod 10 = 0 \<and> pending df i) [0..<length df])"
proof -
  from run_result [OF assms] obtain w1 where
    rl: "row_loop env [0..<length df] df w = (Inr df', w1)" and
    w': "snd (run env df w) =
                logging (Completed (total_articles st) (successful_translations st)
                           (failed_translations st))
                  (logging JobCompleted (to_csv df' OutputFile w1))"
    by blast
  note ck = row_loop_checkpoints [OF rl]
  show ?thesis unfolding w' using ck by simp
qed

text \<open>
  Claim C8, witness: eleven rows, the first and the last untranslated. The run saves a
  checkpoint at index 0, right after the first row, and one at index 10.
\<close>

theorem checkpoint_trigger_witness:
  "checkpoint_log (snd (run hello eleven world0)) = [CheckpointSaved 0, CheckpointSaved 10]
   \<and> checkpoint_writes (snd (run hello eleven world0)) =
       [csv_of [done_row, done_row, done_row, done_row, done_row, done_row, done_row, done_row,
                done_row, done_row, todo_row],
        csv_of [done_row, done_row, done_row, done_row, done_row, done_row, done_row, done_row,
                done_row, done_row, done_row]]"
  using checkpoint_trigger [OF run_hello_eleven]
  by (simp add: eleven_def upt_11 pending_def done_row_def todo_row_def checkpoint_log_def
      checkpoint_writes_def world0_def)

text \<open>
  Claim C8, counterexample: row 0 already has a translation, row 1 has none. The run
  translates row 1 and completes without any checkpoint entry or checkpoint write, although
  the dataset has a row of index 0.
\<close>

theorem checkpoint_trigger_counterexample:
  "fst (run hello resumed world0) =
     Inr ([done_row, done_row],
          \<lparr>total_articles = 2, successful_translations = 2, failed_translations = 0\<rparr>)
   \<and> checkpoint_log (snd (run hello resumed world0)) = []
   \<and> checkpoint_writes (snd (run hello resumed world0)) = []"
  by (simp add: run_def resumed_def upt_rec loop_body_def translate_text_hello
      truncate_text_def Let_def compute_statistics_def startswith_def done_row_def todo_row_def
      checkpoint_log_def checkpoint_writes_def world0_def to_csv_def logging_def time_sleep_def
      del: translate_text.simps)

section \<open>Runs that complete\<close>

lemma translate_with_backoff_string:
  assumes "returns_strings env"
  shows "\<exists>s w'. translate_with_backoff env text tr n w = (PyStr s, w')"
proof (cases "backoff_loop env text tr n (py_range n) w")
  case (Pair r w1)
  show ?thesis
  proof (cases r)
    case None
    then show ?thesis using Pair by (simp add: translate_with_backoff_def)
  next
    case (Some v)
    then have "fst (backoff_loop env text tr n (py_range n) w) = Some v" using Pair by simp
    from backoff_loop_value [OF this] obtain s where "v = PyStr s"
      using assms unfolding returns_strings_def by blast
    then show ?thesis using Pair Some by (simp add: translate_with_backoff_def)
  qed
qed

lemma translate_text_string:
  assumes "returns_strings env"
  shows "\<exists>s w'. translate_text env v index w = (Inr (PyStr s), w')"
proof (cases v)
  case (PyStr t)
  obtain s1 w1 where g: "translate_with_backoff env t GoogleTranslator 5 w = (PyStr s1, w1)"
    using translate_with_backoff_string [OF assms] by blast
  obtain s2 w3 where m: "translate_with_backoff env t MyMemoryTranslator 5
        (logging (FallbackWarning index) w1) = (PyStr s2, w3)"
    using translate_with_backoff_string [OF assms] by blast
  show ?thesis using PyStr g m by simp
qed simp_all

lemma loop_body_completes:
  assumes "returns_strings env"
  shows "\<exists>df1 w1. loop_body env i df w = (Inr df1, w1)"
proof -
  obtain s wt where
    "translate_text env (PyStr (truncate_text (py_str (summary (df ! i))) 150)) i w
       = (Inr (PyStr s), wt)"
    using translate_text_string [OF assms] by blast
  then show ?thesis by (simp add: loop_body_def Let_def del: translate_text.simps)
qed

lemma row_loop_completes:
  assumes "returns_strings env"
  shows "\<exists>df' w'. row_loop env idxs df w = (Inr df', w')"
proof (induction idxs arbitrary: df w)
  case Nil
  then show ?case by simp
next
  case (Cons a rest)
  obtain df1 w1 where "loop_body env a df w = (Inr df1, w1)"
    using loop_body_completes [OF assms] by blast
  then show ?case using Cons.IH [of df1 w1] by simp
qed

lemma run_completes:
  assumes "returns_strings env"
  shows "\<exists>df' st. fst (run env df w) = Inr (df', st)"
proof -
  obtain df' w' where "row_loop env [0..<length df] df w = (Inr df', w')"
    using row_loop_completes [OF assms] by blast
  then show ?thesis by (simp add: run_def Let_def)
qed

lemma run_row_loop:
  assumes "fst (run env df w) = Inr (df', st)"
  shows "\<exists>w1. row_loop env [0..<length df] df w = (Inr df', w1)"
  using assms by (auto simp add: run_def Let_def split: prod.splits sum.splits)

lemma run_coverage:
  assumes "fst (run env df w) = Inr (df', st)"
  shows "length df' = length df \<and> (\<forall>r\<in>set df'. \<not> isna (translated_summary r))"
proof -
  from run_row_loop [OF assms] obtain w1 where
    rl: "row_loop env [0..<length df] df w = (Inr df', w1)" ..
  note cov = row_loop_coverage [OF rl]
  have len: "length df' = length df" using cov by (rule conjunct1)
  have np: "\<not> pending df' i" if "i < length df" for i
    using cov [THEN conjunct2, rule_format, of i] that by simp
  have "\<forall>r\<in>set df'. \<not> isna (translated_summary r)"
  proof
    fix r assume "r \<in> set df'"
    then obtain i where i: "i < length df'" "df' ! i = r" by (auto simp add: in_set_conv_nth)
    have "\<not> pending df' i" using np i(1) len by simp
    then show "\<not> isna (translated_summary r)" using i(2) by (simp add: pending_def)
  qed
  then show ?thesis using len by simp
qed

text \<open>
  Claim C9. When the loop body finishes for the row at \<open>i\<close>, that row has a translation;
  when a run completes, the dataset has as many rows as before and every one of them has
  a translation. A run completes whenever the translators return strings.
\<close>

theorem coverage:
  "(returns_strings env \<longrightarrow> (\<exists>df' st. fst (run env df w) = Inr (df', st))) \<and>
   (\<forall>df1 w1. i < length df \<longrightarrow> loop_body env i df w = (Inr df1, w1) \<longrightarrow>
      \<not> isna (translated_summary (df1 ! i))) \<and>
   (\<forall>df' st. fst (run env df w) = Inr (df', st) \<longrightarrow>
      length df' = length df \<and> (\<forall>r\<in>set df'. \<not> isna (translated_summary r)))"
proof (intro conjI allI impI)
  assume "returns_strings env"
  then show "\<exists>df' st. fst (run env df w) = Inr (df', st)" by (rule run_completes)
next
  fix df1 w1 assume "i < length df" "loop_body env i df w = (Inr df1, w1)"
  then show "\<not> isna (translated_summary (df1 ! i))"
    using loop_body_effect [of env i df w df1 w1] by (simp add: pending_def)
next
  fix df' st assume "fst (run env df w) = Inr (df', st)"
  then show "length df' = length df" using run_coverage by blast
next
  fix df' st assume "fst (run env df w) = Inr (df', st)"
  then show "\<forall>r\<in>set df'. \<not> isna (translated_summary r)" using run_coverage by blast
qed

text \<open>
  Claim C9, witness: two untranslated rows and translators that answer \<^verbatim>\<open>Hello\<close>. The
  run completes, and both rows have a translation; so has row 0 after one pass of the loop
  body.
\<close>

theorem coverage_witness:
  "(\<exists>df' st. fst (run hello two_pending world0) = Inr (df', st)) \<and>
   fst (loop_body hello 0 two_pending world0) = Inr [done_row, todo_row] \<and>
   \<not> isna (translated_summary ([done_row, todo_row] ! 0)) \<and>
   fst (run hello two_pending world0) =
     Inr ([done_row, done_row],
          \<lparr>total_articles = 2, successful_translations = 2, failed_translations = 0\<rparr>) \<and>
   length [done_row, done_row] = length two_pending \<and>
   list_all (\<lambda>r. \<not> isna (translated_summary r)) [done_row, done_row]"
proof -
  have rs: "returns_strings hello" by (simp add: returns_strings_def hello_def)
  have "\<exists>w1. loop_body hello 0 two_pending world0 = (Inr [done_row, todo_row], w1)"
    by (simp add: two_pending_def loop_body_def translate_text_hello truncate_text_def Let_def
        done_row_def todo_row_def del: translate_text.simps)
  then obtain w1 where lb: "loop_body hello 0 two_pending world0 = (Inr [done_row, todo_row], w1)"
    by blast
  have rn: "fst (run hello two_pending world0) =
     Inr ([done_row, done_row],
          \<lparr>total_articles = 2, successful_translations = 2, failed_translations = 0\<rparr>)"
    by (simp add: run_def two_pending_def upt_rec loop_body_def translate_text_hello
        truncate_text_def Let_def compute_statistics_def startswith_def done_row_def todo_row_def
        del: translate_text.simps)
  note c = coverage [of hello two_pending world0 0]
  have f1: "\<exists>df' st. fst (run hello two_pending world0) = Inr (df', st)"
    using c [THEN conjunct1, rule_format, OF rs] .
  have f2: "\<not> isna (translated_summary ([done_row, todo_row] ! 0))"
    using c [THEN conjunct2, THEN conjunct1, rule_format, OF _ lb] by (simp add: two_pending_def)
  have f3: "length [done_row, done_row] = length two_pending \<and>
           (\<forall>r\<in>set [done_row, done_row]. \<not> isna (translated_summary r))"
    using c [THEN conjunct2, THEN conjunct2, rule_format, OF rn] .
  have f4: "fst (loop_body hello 0 two_pending world0) = Inr [done_row, todo_row]"
    by (simp only: lb fst_conv)
  have f5: "list_all (\<lambda>r. \<not> isna (translated_summary r)) [done_row, done_row]"
    using f3 [THEN conjunct2] by (simp only: list_all_iff)
  show ?thesis
    by (intro conjI) (rule f1, rule f4, rule f2, rule rn, rule f3 [THEN conjunct1], rule f5)
qed

section \<open>The canonical three rows\<close>

lemma backoff_loop_calls:
  "attempts \<noteq> [] \<Longrightarrow> backoff_loop env text tr n attempts w = (r, w') \<Longrightarrow>
   (tr, text) \<in> set (calls w')"
proof (cases attempts)
  case Nil
  assume "attempts \<noteq> []"
  then show ?thesis using Nil by simp
next
  case (Cons attempt rest)
  assume a: "backoff_loop env text tr n attempts w = (r, w')"
  show ?thesis
  proof (cases "env tr (calls_of tr w) text")
    case (Inr v)
    then show ?thesis using a Cons by (auto simp add: translate_def)
  next
    case (Inl e)
    show ?thesis
    proof (cases "int attempt = n - 1")
      case True
      then show ?thesis using a Cons Inl by (auto simp add: translate_def logging_def)
    next
      case False
      let ?w2 = "time_sleep (2 ^ attempt)
                   (logging (AttemptFailed (attempt + 1) e) (w\<lparr>calls := calls w @ [(tr, text)]\<rparr>))"
      have "backoff_loop env text tr n rest ?w2 = (r, w')"
        using a Cons Inl False by (simp add: translate_def)
      from backoff_loop_frame [OF this] show ?thesis
        by (auto simp add: logging_def time_sleep_def)
    qed
  qed
qed

lemma translate_text_calls:
  assumes "translate_text env (PyStr t) index w = (r, w')" and "t \<noteq> []"
  shows "(GoogleTranslator, t) \<in> set (calls w')"
proof -
  obtain r1 w1 where g: "translate_with_backoff env t GoogleTranslator 5 w = (r1, w1)"
    by (cases "translate_with_backoff env t GoogleTranslator 5 w")
  obtain b wb where b: "backoff_loop env t GoogleTranslator 5 (py_range 5) w = (b, wb)"
    by (cases "backoff_loop env t GoogleTranslator 5 (py_range 5) w")
  have "w1 = wb" using g b by (auto simp add: translate_with_backoff_def split: option.splits)
  moreover have "(GoogleTranslator, t) \<in> set (calls wb)"
    using backoff_loop_calls [OF _ b] by (simp add: py_range_5)
  ultimately have in1: "(GoogleTranslator, t) \<in> set (calls w1)" by simp
  obtain r2 w3 where m: "translate_with_backoff env t MyMemoryTranslator 5
        (logging (FallbackWarning index) w1) = (r2, w3)"
    by (cases "translate_with_backoff env t MyMemoryTranslator 5 (logging (FallbackWarning index) w1)")
  have in3: "(GoogleTranslator, t) \<in> set (calls w3)"
    using translate_with_backoff_frame [OF m] in1 by (auto simp add: logging_def)
  show ?thesis using assms g m in1 in3
    by (auto simp add: except_clauses_def module_globals_def split: pyval.splits if_splits)
qed

lemma loop_body_calls:
  "loop_body env i df w = (r, w1) \<Longrightarrow> set (calls w) \<subseteq> set (calls w1)"
proof (cases "pending df i")
  case False
  assume "loop_body env i df w = (r, w1)"
  then have "w1 = time_sleep 1 w" using False loop_body_skip [of df i env w] by simp
  then show ?thesis by (simp add: time_sleep_def)
next
  case True
  assume a: "loop_body env i df w = (r, w1)"
  obtain rt wt where tt:
    "translate_text env (PyStr (truncate_text (py_str (summary (df ! i))) 150)) i w = (rt, wt)"
    by (cases "translate_text env (PyStr (truncate_text (py_str (summary (df ! i))) 150)) i w")
  note fr = translate_text_frame [OF tt]
  have "calls w1 = calls wt"
    using a tt True
    by (auto simp add: loop_body_def pending_def Let_def time_sleep_def logging_def to_csv_def
        split: sum.splits pyval.splits if_splits simp del: translate_text.simps)
  then show ?thesis using fr by simp
qed

lemma row_loop_calls:
  "row_loop env idxs df w = (r, w') \<Longrightarrow> set (calls w) \<subseteq> set (calls w')"
proof (induction idxs arbitrary: df w)
  case Nil
  then show ?case by simp
next
  case (Cons a rest)
  obtain r1 w1 where lb: "loop_body env a df w = (r1, w1)" by (cases "loop_body env a df w")
  note c1 = loop_body_calls [OF lb]
  show ?case
  proof (cases r1)
    case (Inl e)
    then show ?thesis using Cons.prems lb c1 by simp
  next
    case (Inr df1)
    then have "row_loop env rest df1 w1 = (r, w')" using Cons.prems lb by simp
    from Cons.IH [OF this] show ?thesis using c1 by blast
  qed
qed

lemma run_calls: "calls (snd (run env df w)) = calls (snd (row_loop env [0..<length df] df w))"
  by (auto simp add: run_def Let_def logging_def to_csv_def split: prod.splits sum.splits)

lemma upt_3: "[0..<3] = [0, 1, 2]"
  by (simp add: upt_rec)

lemma translate_text_hola:
  assumes "\<forall>k. env GoogleTranslator k ''Hola mundo'' = Inr (PyStr ''Hello world'')"
  shows "translate_text env (PyStr ''Hola mundo'') i w =
           (Inr (PyStr ''Hello world''), w\<lparr>calls := calls w @ [(GoogleTranslator, ''Hola mundo'')]\<rparr>)"
  using assms
  by (simp add: translate_with_backoff_def py_range_5 translate_def startswith_def)

lemma translate_text_empty: "translate_text env (PyStr []) i w = (Inr (PyStr []), w)"
  by simp

lemma loop_body_calls_pending:
  assumes "loop_body env i df w = (r, w1)" and "pending df i"
    and "truncate_text (py_str (summary (df ! i))) 150 \<noteq> []"
  shows "(GoogleTranslator, truncate_text (py_str (summary (df ! i))) 150) \<in> set (calls w1)"
proof -
  obtain rt wt where tt:
    "translate_text env (PyStr (truncate_text (py_str (summary (df ! i))) 150)) i w = (rt, wt)"
    by (cases "translate_text env (PyStr (truncate_text (py_str (summary (df ! i))) 150)) i w")
  have "calls w1 = calls wt"
    using assms(1,2) tt
    by (auto simp add: loop_body_def pending_def Let_def time_sleep_def logging_def to_csv_def
        split: sum.splits pyval.splits if_splits simp del: translate_text.simps)
  then show ?thesis using translate_text_calls [OF tt assms(3)] by simp
qed

lemma filter_all: "\<forall>x\<in>set xs. P x \<Longrightarrow> length (filter P xs) = length xs"
  by (induction xs) auto

lemma canonical_run:
  assumes h: "\<forall>k. env GoogleTranslator k ''Hola mundo'' = Inr (PyStr ''Hello world'')"
  shows "(GoogleTranslator, ''nan'')
             \<in> set (calls (snd (row_loop env [0..<length canonical] canonical w))) \<and>
           (\<forall>df'. fst (row_loop env [0..<length canonical] canonical w) = Inr df' \<longrightarrow>
              translated_summary (df' ! 0) = PyStr ''Hello world'' \<and>
              translated_summary (df' ! 1) = PyStr [])"
proof -
  let ?df1 = "[\<lparr>summary = PyStr ''Hola mundo'', translated_summary = PyStr ''Hello world''\<rparr>,
                \<lparr>summary = PyStr [], translated_summary = PyNA\<rparr>,
                \<lparr>summary = PyNA, translated_summary = PyNA\<rparr>]"
  let ?df2 = "[\<lparr>summary = PyStr ''Hola mundo'', translated_summary = PyStr ''Hello world''\<rparr>,
                \<lparr>summary = PyStr [], translated_summary = PyStr []\<rparr>,
                \<lparr>summary = PyNA, translated_summary = PyNA\<rparr>]"
  have th: "translate_text env (PyStr ''Hola mundo'') i w' =
           (Inr (PyStr ''Hello world''), w'\<lparr>calls := calls w' @ [(GoogleTranslator, ''Hola mundo'')]\<rparr>)"
    for i w'
    using translate_text_hola [of env i w'] h by blast
  have "\<exists>w1. loop_body env 0 canonical w = (Inr ?df1, w1)"
    by (simp add: loop_body_def canonical_def th truncate_text_def Let_def
        del: translate_text.simps)
  then obtain w1 where s0: "loop_body env 0 canonical w = (Inr ?df1, w1)" ..
  have "\<exists>w2. loop_body env 1 ?df1 w1 = (Inr ?df2, w2)"
    by (simp add: loop_body_def translate_text_empty truncate_text_def Let_def
        del: translate_text.simps)
  then obtain w2 where s1: "loop_body env 1 ?df1 w1 = (Inr ?df2, w2)" ..
  obtain r3 w3 where s2: "loop_body env 2 ?df2 w2 = (r3, w3)"
    by (cases "loop_body env 2 ?df2 w2")
  have tr: "truncate_text (py_str (summary (?df2 ! 2))) 150 = ''nan''"
    by (simp add: truncate_text_def)
  have call: "(GoogleTranslator, ''nan'') \<in> set (calls w3)"
    using loop_body_calls_pending [OF s2] unfolding tr by (simp add: pending_def)
  have rl: "row_loop env [0..<length canonical] canonical w =
              (case r3 of Inl e \<Rightarrow> (Inl e, w3) | Inr df3 \<Rightarrow> (Inr df3, w3))"
    using s0 s1 s2 by (simp add: canonical_def numeral_2_eq_2 split: sum.splits)
  have w3: "snd (row_loop env [0..<length canonical] canonical w) = w3"
    unfolding rl by (simp split: sum.splits)
  have rows: "translated_summary (df' ! 0) = PyStr ''Hello world'' \<and>
              translated_summary (df' ! 1) = PyStr []"
    if "fst (row_loop env [0..<length canonical] canonical w) = Inr df'" for df'
  proof -
    have r3: "r3 = Inr df'" using that unfolding rl by (simp split: sum.splits)
    from loop_body_effect [OF s2 [unfolded r3]] have tk: "take 2 df' = take 2 ?df2" by simp
    have "df' ! 0 = take 2 df' ! 0" "df' ! 1 = take 2 df' ! 1" by simp_all
    then show ?thesis unfolding tk by simp
  qed
  show ?thesis unfolding w3 using call rows by simp
qed

text \<open>
  Claim C1, on the code. For the dataset whose summaries are \<^verbatim>\<open>Hola mundo\<close>, the empty
  string and a missing value, and any translators of which the first maps \<^verbatim>\<open>Hola mundo\<close> to
  \<^verbatim>\<open>Hello world\<close>: the run calls the first translator on the text \<^verbatim>\<open>nan\<close>, which is
  \<^verbatim>\<open>str\<close> of the missing summary (line 73), so the third row is not short-circuited. When
  the run completes, the first two translations are \<^verbatim>\<open>Hello world\<close> and the empty string,
  and the statistics count 3 rows, all 3 successful.
\<close>

theorem canonical_rows:
  assumes "\<forall>k. env GoogleTranslator k ''Hola mundo'' = Inr (PyStr ''Hello world'')"
  shows "(GoogleTranslator, ''nan'') \<in> set (calls (snd (run env canonical w))) \<and>
         (\<forall>df' st. fst (run env canonical w) = Inr (df', st) \<longrightarrow>
            translated_summary (df' ! 0) = PyStr ''Hello world'' \<and>
            translated_summary (df' ! 1) = PyStr [] \<and>
            total_articles st = 3 \<and> successful_translations st = 3)"
proof -
  note cr = canonical_run [of env w, OF assms]
  have rows: "\<forall>df'. fst (row_loop env [0..<length canonical] canonical w) = Inr df' \<longrightarrow>
              translated_summary (df' ! 0) = PyStr ''Hello world'' \<and>
              translated_summary (df' ! 1) = PyStr []"
    using cr by (rule conjunct2)
  have c1: "(GoogleTranslator, ''nan'') \<in> set (calls (snd (run env canonical w)))"
    unfolding run_calls using cr by (rule conjunct1)
  have c2: "translated_summary (df' ! 0) = PyStr ''Hello world'' \<and>
            translated_summary (df' ! 1) = PyStr [] \<and>
            total_articles st = 3 \<and> successful_translations st = 3"
    if r: "fst (run env canonical w) = Inr (df', st)" for df' st
  proof -
    from run_row_loop [OF r] obtain w1 where
      rl: "row_loop env [0..<length canonical] canonical w = (Inr df', w1)" ..
    have st: "st = compute_statistics df'"
      using r by (auto simp add: run_def Let_def split: prod.splits sum.splits)
    have f: "fst (row_loop env [0..<length canonical] canonical w) = Inr df'" using rl by simp
    have two: "translated_summary (df' ! 0) = PyStr ''Hello world'' \<and>
               translated_summary (df' ! 1) = PyStr []"
      using rows f by simp
    note cov = run_coverage [OF r]
    have len: "length df' = 3" using cov by (simp add: canonical_def)
    have tot: "total_articles st = 3" using st len by (simp add: compute_statistics_def)
    have "length (filter (\<lambda>r. \<not> isna (translated_summary r)) df') = length df'"
      using cov by (intro filter_all) simp
    then have suc: "successful_translations st = 3"
      using st len by (simp add: compute_statistics_def)
    show ?thesis using two tot suc by simp
  qed
  show ?thesis using c1 c2 by simp
qed

text \<open>
  Claim C1, at a stub: the first translator maps \<^verbatim>\<open>Hola mundo\<close> to \<^verbatim>\<open>Hello world\<close> and
  raises \<^verbatim>\<open>KeyError\<close> on any other text, as the second translator does on every text. The
  third translation is a failure marker, not the empty string.
\<close>

theorem canonical_rows_witness:
  "(GoogleTranslator, ''nan'') \<in> set (calls (snd (run hola_stub canonical world0))) \<and>
   fst (run hola_stub canonical world0) =
     Inr ([\<lparr>summary = PyStr ''Hola mundo'', translated_summary = PyStr ''Hello world''\<rparr>,
           \<lparr>summary = PyStr [], translated_summary = PyStr []\<rparr>,
           \<lparr>summary = PyNA, translated_summary = PyStr ''Translation failed: nan''\<rparr>],
          \<lparr>total_articles = 3, successful_translations = 3, failed_translations = 1\<rparr>)"
proof -
  have h: "\<forall>k. hola_stub GoogleTranslator k ''Hola mundo'' = Inr (PyStr ''Hello world'')"
    by (simp add: hola_stub_def)
  have f1: "(GoogleTranslator, ''nan'') \<in> set (calls (snd (run hola_stub canonical world0)))"
    using canonical_rows [of hola_stub world0, THEN conjunct1] h by simp
  have f2: "fst (run hola_stub canonical world0) =
     Inr ([\<lparr>summary = PyStr ''Hola mundo'', translated_summary = PyStr ''Hello world''\<rparr>,
           \<lparr>summary = PyStr [], translated_summary = PyStr []\<rparr>,
           \<lparr>summary = PyNA, translated_summary = PyStr ''Translation failed: nan''\<rparr>],
          \<lparr>total_articles = 3, successful_translations = 3, failed_translations = 1\<rparr>)"
    by (simp add: run_def canonical_def upt_rec loop_body_def translate_with_backoff_def
        py_range_5 translate_def hola_stub_def calls_of_def logging_def time_sleep_def to_csv_def
        startswith_def truncate_text_def Let_def compute_statistics_def world0_def)
  show ?thesis using f1 f2 by (rule conjI)
qed

section \<open>An error outside the retry loop\<close>

text \<open>
  Claim C6, on the code. A first translator that returns \<^verbatim>\<open>None\<close> makes
  \<^verbatim>\<open>result.startswith\<close> raise inside the \<^verbatim>\<open>try\<close> of \<^verbatim>\<open>translate_text\<close>. Matching the first
  \<^verbatim>\<open>except\<close> clause evaluates \<^verbatim>\<open>requests\<close>, which the module does not bind: \<^verbatim>\<open>NameError\<close>
  leaves \<^verbatim>\<open>translate_text\<close> and ends the run at the first row. The second row is never
  translated and no file is written.
\<close>

theorem error_escapes_translate_text:
  "fst (translate_text returns_none (PyStr ''Hola'') 0 world0) = Inl (PyExc ''NameError'' ''requests'')
   \<and> run returns_none two_pending world0 =
       (Inl (PyExc ''NameError'' ''requests''),
        \<lparr>calls = [(GoogleTranslator, ''Hola'')], sleeps = [], log = [], written = []\<rparr>)"
  by (simp add: run_def two_pending_def todo_row_def upt_rec loop_body_def
      translate_with_backoff_def py_range_5 translate_def returns_none_def except_clauses_def
      module_globals_def truncate_text_def world0_def)

section \<open>Resuming from a checkpoint\<close>

text \<open>
  Claim C7, on the code. One row, and a translator that returns the empty string for it.
  The first run stores the empty string and saves the checkpoint at index 0, where the
  translation is the empty field. Read back, that field is a missing value, so the resumed
  run translates the row again and calls the translator for it.
\<close>

theorem resume_translates_again:
  "fst (run blank [todo_row] world0) =
     Inr ([\<lparr>summary = PyStr ''Hola'', translated_summary = PyStr []\<rparr>],
          \<lparr>total_articles = 1, successful_translations = 1, failed_translations = 0\<rparr>)
   \<and> checkpoint_writes (snd (run blank [todo_row] world0)) = [Csv2 [(''Hola'', [])]]
   \<and> fst (load (Some (Csv2 [(''Hola'', [])])) (Csv1 [''Hola'']) world0) = [todo_row]
   \<and> calls (snd (run blank (fst (load (Some (Csv2 [(''Hola'', [])])) (Csv1 [''Hola'']) world0))
                world0)) = [(GoogleTranslator, ''Hola'')]"
  by (simp add: run_def todo_row_def upt_rec loop_body_def translate_with_backoff_def
      py_range_5 translate_def blank_def truncate_text_def startswith_def Let_def
      compute_statistics_def world0_def to_csv_def csv_of_def logging_def time_sleep_def
      checkpoint_writes_def load_def from_field_def na_values_def)

end
